theory Spec2Isabelle
  imports Main
begin

section \<open>Python primitives used by the sensor\<close>

text \<open>
  A Python \<open>str\<close> is modelled as a \<open>string\<close> whose characters are code points below 256.
  Among these, \<open>str.isspace\<close> holds for 9..13, 28..32, 133 and 160, and the only decimal
  digits are \<open>0\<close>..\<open>9\<close>.
\<close>

definition isspace :: "char \<Rightarrow> bool" where
  "isspace c =
     (let n = (of_char c :: nat)
      in (9 \<le> n \<and> n \<le> 13) \<or> (28 \<le> n \<and> n \<le> 32) \<or> n = 133 \<or> n = 160)"

definition isdigit :: "char \<Rightarrow> bool" where
  "isdigit c = (let n = (of_char c :: nat) in 48 \<le> n \<and> n \<le> 57)"

text \<open>\<open>s.strip()\<close>: leading and trailing whitespace removed.\<close>

definition str_strip :: "string \<Rightarrow> string" where
  "str_strip s = rev (dropWhile isspace (rev (dropWhile isspace s)))"

text \<open>\<open>s.split()\<close>: the maximal runs of non-whitespace characters, in order.\<close>

fun split_acc :: "string \<Rightarrow> string \<Rightarrow> string list" where
  "split_acc w [] = (if w = [] then [] else [w])"
| "split_acc w (c # cs) =
     (if isspace c then (if w = [] then split_acc [] cs else w # split_acc [] cs)
      else split_acc (w @ [c]) cs)"

definition str_split :: "string \<Rightarrow> string list" where
  "str_split s = split_acc [] s"

text \<open>\<open>s.split(sep)\<close> for a one-character separator: every occurrence splits, empty parts are kept.\<close>

fun split_on :: "char \<Rightarrow> string \<Rightarrow> string list" where
  "split_on sep [] = [[]]"
| "split_on sep (c # cs) =
     (if c = sep then [] # split_on sep cs
      else (case split_on sep cs of [] \<Rightarrow> [[c]] | w # ws \<Rightarrow> (c # w) # ws))"

text \<open>\<open>s.startswith(p)\<close>.\<close>

fun startswith :: "string \<Rightarrow> string \<Rightarrow> bool" where
  "startswith s [] = True"
| "startswith [] (p # ps) = False"
| "startswith (c # cs) (p # ps) = (c = p \<and> startswith cs ps)"

text \<open>\<open>a > b\<close> on strings: lexicographic by code point, a proper extension being greater.\<close>

fun str_gt :: "string \<Rightarrow> string \<Rightarrow> bool" where
  "str_gt [] b = False"
| "str_gt (c # cs) [] = True"
| "str_gt (c # cs) (d # ds) =
     (if (of_char c :: nat) = of_char d then str_gt cs ds else (of_char d :: nat) < of_char c)"

text \<open>
  \<open>int(s)\<close> in base 10: surrounding whitespace is ignored, one sign is allowed, and single
  underscores may separate digits. The digits, leading zeros included and underscores not
  counted, may be at most \<open>sys.int_max_str_digits\<close> many, 4300 unless the interpreter is
  configured otherwise. \<open>None\<close> stands for the \<open>ValueError\<close> it raises.
\<close>

definition int_max_str_digits :: nat where
  "int_max_str_digits = 4300"

definition digit_val :: "char \<Rightarrow> int" where
  "digit_val c = int (of_char c) - 48"

definition digits_value :: "string \<Rightarrow> int" where
  "digits_value ds = foldl (\<lambda>a c. 10 * a + digit_val c) 0 ds"

definition unsigned_int :: "string \<Rightarrow> int option" where
  "unsigned_int body =
     (let groups = split_on (CHR ''_'') body
      in if list_all (\<lambda>g. g \<noteq> [] \<and> list_all isdigit g) groups
            \<and> length (concat groups) \<le> int_max_str_digits
         then Some (digits_value (concat groups)) else None)"

definition py_int :: "string \<Rightarrow> int option" where
  "py_int s =
     (case str_strip s of
        [] \<Rightarrow> None
      | c # r \<Rightarrow>
          if c = CHR ''-'' then map_option uminus (unsigned_int r)
          else if c = CHR ''+'' then unsigned_int r
          else unsigned_int (c # r))"

text \<open>Decimal rendering with zero padding, as the numeric directives of \<open>strftime\<close> produce.\<close>

fun dec_digits :: "nat \<Rightarrow> nat \<Rightarrow> string" where
  "dec_digits 0 n = []"
| "dec_digits (Suc k) n = dec_digits k (n div 10) @ [char_of (48 + n mod 10)]"

definition zero_pad :: "nat \<Rightarrow> int \<Rightarrow> string" where
  "zero_pad width n = dec_digits width (nat n)"

section \<open>Instants\<close>

text \<open>
  A \<open>datetime\<close> in UTC at minute resolution. The sensor reads it from the clock, so its
  fields are those of a real date: year 1..9999, month 1..12, day 1..31, hour 0..23,
  minute 0..59.
\<close>

record datetime =
  year :: int
  month :: int
  day :: int
  hour :: int
  minute :: int

text \<open>\<open>datetime.weekday()\<close>: the proleptic Gregorian ordinal of the date, Monday being 0.\<close>

definition is_leap :: "int \<Rightarrow> bool" where
  "is_leap y = (y mod 4 = 0 \<and> (y mod 100 \<noteq> 0 \<or> y mod 400 = 0))"

definition days_before_year :: "int \<Rightarrow> int" where
  "days_before_year y = (let p = y - 1 in p * 365 + p div 4 - p div 100 + p div 400)"

definition days_before_month :: "int \<Rightarrow> int \<Rightarrow> int" where
  "days_before_month y m =
     ([0, 0, 31, 59, 90, 120, 151, 181, 212, 243, 273, 304, 334] ! nat m)
       + (if 2 < m \<and> is_leap y then 1 else 0)"

definition toordinal :: "datetime \<Rightarrow> int" where
  "toordinal dt = days_before_year (year dt) + days_before_month (year dt) (month dt) + day dt"

definition weekday :: "datetime \<Rightarrow> int" where
  "weekday dt = (toordinal dt + 6) mod 7"

text \<open>
  \<open>strftime\<close> for the directives the sensor uses; any other character is copied. The year
  is written with four digits, as it is for every year from 1000 on.
\<close>

fun strftime :: "datetime \<Rightarrow> string \<Rightarrow> string" where
  "strftime dt [] = []"
| "strftime dt [c] = [c]"
| "strftime dt (c # d # cs) =
     (if c = CHR ''%'' then
        (if d = CHR ''Y'' then zero_pad 4 (year dt)
         else if d = CHR ''m'' then zero_pad 2 (month dt)
         else if d = CHR ''d'' then zero_pad 2 (day dt)
         else if d = CHR ''H'' then zero_pad 2 (hour dt)
         else if d = CHR ''M'' then zero_pad 2 (minute dt)
         else [c, d]) @ strftime dt cs
      else c # strftime dt (d # cs))"

section \<open>Cron matcher\<close>

datatype py_exception =
    ValueError
  | ZeroDivisionError
  | JSONDecodeError string
  | AttributeError

text \<open>
  \<open>matches_field\<close>, the inner function of \<open>cron_matches\<close>. Each \<open>int(...)\<close> and each
  unpacking of a split into a fixed number of names can raise \<open>ValueError\<close>; the modulo
  raises \<open>ZeroDivisionError\<close> on a zero step.
\<close>

definition matches_field :: "string \<Rightarrow> int \<Rightarrow> py_exception + bool" where
  "matches_field field v =
     (if field = ''*'' then Inr True
      else if CHR ''/'' \<in> set field then
        (case split_on (CHR ''/'') field of
           [base, step] \<Rightarrow>
             (case py_int step of
                None \<Rightarrow> Inl ValueError
              | Some step_val \<Rightarrow>
                  if base = ''*'' then
                    (if step_val = 0 then Inl ZeroDivisionError else Inr (v mod step_val = 0))
                  else Inr False)
         | _ \<Rightarrow> Inl ValueError)
      else if CHR ''-'' \<in> set field then
        (case those (map py_int (split_on (CHR ''-'') field)) of
           Some [start, stop] \<Rightarrow> Inr (start \<le> v \<and> v \<le> stop)
         | _ \<Rightarrow> Inl ValueError)
      else if CHR '','' \<in> set field then
        (case those (map py_int (split_on (CHR '','') field)) of
           None \<Rightarrow> Inl ValueError
         | Some xs \<Rightarrow> Inr (v \<in> set xs))
      else
        (case py_int field of None \<Rightarrow> Inl ValueError | Some n \<Rightarrow> Inr (v = n)))"

text \<open>Python's short-circuit \<open>and\<close>: the right operand is evaluated only after a true left one.\<close>

fun py_and :: "py_exception + bool \<Rightarrow> py_exception + bool \<Rightarrow> py_exception + bool" where
  "py_and (Inl e) b = Inl e"
| "py_and (Inr False) b = Inr False"
| "py_and (Inr True) b = b"

definition cron_weekday :: "datetime \<Rightarrow> int" where
  "cron_weekday dt = (weekday dt + 1) mod 7"

definition cron_matches :: "string \<Rightarrow> datetime \<Rightarrow> py_exception + bool" where
  "cron_matches cron_expression dt =
     (case str_split (str_strip cron_expression) of
        [minute_f, hour_f, day_f, month_f, weekday_f] \<Rightarrow>
          py_and (matches_field minute_f (minute dt))
            (py_and (matches_field hour_f (hour dt))
              (py_and (matches_field day_f (day dt))
                (py_and (matches_field month_f (month dt))
                  (matches_field weekday_f (cron_weekday dt)))))
      | _ \<Rightarrow> Inr False)"

section \<open>Schedule resolver\<close>

text \<open>
  A swarm as the registry returns it. \<open>swarm.get(key)\<close> is \<open>None\<close> for a missing key and for
  a JSON null.
\<close>

record swarm =
  swarm_id :: string
  display_name :: "string option"
  is_paused :: bool
  schedule_type :: "string option"
  cron_expression :: "string option"

definition defaults :: "string \<Rightarrow> string option" where
  "defaults t =
     (if t = ''daily'' then Some ''0 9 * * *''
      else if t = ''weekly'' then Some ''0 9 * * 1''
      else if t = ''monthly'' then Some ''0 9 1 * *''
      else None)"

text \<open>\<open>not x\<close> holds of \<open>None\<close> and of the empty string.\<close>

definition get_effective_cron :: "swarm \<Rightarrow> string option" where
  "get_effective_cron sw =
     (case schedule_type sw of
        None \<Rightarrow> None
      | Some st \<Rightarrow>
          if st = [] then None
          else (case cron_expression sw of
                  None \<Rightarrow> defaults st
                | Some cron_expr \<Rightarrow> if cron_expr \<noteq> [] then Some cron_expr else defaults st))"

section \<open>Evaluation cycle\<close>

text \<open>
  A decoded JSON value. An object is the list of its items in the order of the dict, with
  distinct keys. Numbers other than integers do not occur in a cursor and are left out.
\<close>

datatype json =
    JNull
  | JBool bool
  | JInt int
  | JString string
  | JArray "json list"
  | JObject "(string \<times> json) list"

text \<open>
  What lies outside the repository is a parameter: the JSON codec of the standard library
  and the two calls of the API resource. The registry has a state of its own, \<open>'w\<close>,
  which each call may read and change; \<open>Inl\<close> carries the message of the exception raised.
\<close>

record 'w env =
  json_loads :: "string \<Rightarrow> string + json"
  json_dumps :: "json \<Rightarrow> string"
  get_swarms :: "'w \<Rightarrow> (string + swarm list) \<times> 'w"
  run_swarm :: "string \<Rightarrow> 'w \<Rightarrow> (string + json) \<times> 'w"

text \<open>
  The local state of the loop: the cursor dict, the \<open>triggered\<close> list, the registry, and
  the trigger calls issued so far, each with the id it was given and whether it returned.
\<close>

record 'w loop_state =
  cursor :: "(string \<times> json) list"
  triggered :: "string list"
  world :: 'w
  run_calls :: "(string \<times> bool) list"

datatype sensor_return = ReturnNone | SkipReason string

text \<open>
  What one evaluation leaves behind: the value returned or the exception that escaped,
  \<open>context.cursor\<close> afterwards, and the final local state.
\<close>

record 'w tick =
  returned :: "py_exception + sensor_return"
  context_cursor :: "string option"
  final :: "'w loop_state"

definition current_minute :: "datetime \<Rightarrow> string" where
  "current_minute now = strftime now ''%Y-%m-%d-%H-%M''"

definition cutoff :: "datetime \<Rightarrow> string" where
  "cutoff now = strftime now ''%Y-%m-%d-%H''"

text \<open>The condition of the dict comprehension that cleans the cursor up.\<close>

definition keep_key :: "datetime \<Rightarrow> string \<Rightarrow> bool" where
  "keep_key now k = (startswith k (cutoff now) \<or> str_gt k (take 10 (cutoff now)))"

definition prune :: "datetime \<Rightarrow> (string \<times> json) list \<Rightarrow> (string \<times> json) list" where
  "prune now items = filter (\<lambda>kv. keep_key now (fst kv)) items"

definition dedup_key :: "datetime \<Rightarrow> string \<Rightarrow> string" where
  "dedup_key now sid = current_minute now @ '':'' @ sid"

text \<open>\<open>swarm.get("display_name") or swarm_id[:8]\<close>.\<close>

definition shown_name :: "swarm \<Rightarrow> string" where
  "shown_name sw =
     (case display_name sw of
        None \<Rightarrow> take 8 (swarm_id sw)
      | Some n \<Rightarrow> if n \<noteq> [] then n else take 8 (swarm_id sw))"

text \<open>
  The \<open>try\<close> block that triggers one swarm: an exception of the call is caught and leaves
  the cursor as it was.
\<close>

definition trigger :: "'w env \<Rightarrow> datetime \<Rightarrow> swarm \<Rightarrow> 'w loop_state \<Rightarrow> 'w loop_state" where
  "trigger env now sw st =
     (case run_swarm env (swarm_id sw) (world st) of
        (Inl e, w') \<Rightarrow> st\<lparr>world := w', run_calls := run_calls st @ [(swarm_id sw, False)]\<rparr>
      | (Inr result, w') \<Rightarrow>
          st\<lparr>cursor := cursor st @ [(dedup_key now (swarm_id sw), JBool True)],
             triggered := triggered st @ [shown_name sw],
             world := w',
             run_calls := run_calls st @ [(swarm_id sw, True)]\<rparr>)"

text \<open>
  The body of the loop for one swarm. \<open>Inl\<close> is an exception leaving the loop, with the
  state reached.
\<close>

definition eval_swarm ::
  "'w env \<Rightarrow> datetime \<Rightarrow> swarm \<Rightarrow> 'w loop_state \<Rightarrow> (py_exception \<times> 'w loop_state) + 'w loop_state"
where
  "eval_swarm env now sw st =
     (if is_paused sw then Inr st
      else (case get_effective_cron sw of
        None \<Rightarrow> Inr st
      | Some cron_expr \<Rightarrow>
          if cron_expr = [] then Inr st
          else (case cron_matches cron_expr now of
            Inl ex \<Rightarrow> Inl (ex, st)
          | Inr matched \<Rightarrow>
              if \<not> matched then Inr st
              else if dedup_key now (swarm_id sw) \<in> set (map fst (cursor st)) then Inr st
              else Inr (trigger env now sw st))))"

fun for_swarms ::
  "'w env \<Rightarrow> datetime \<Rightarrow> swarm list \<Rightarrow> 'w loop_state \<Rightarrow> (py_exception \<times> 'w loop_state) + 'w loop_state"
where
  "for_swarms env now [] st = Inr st"
| "for_swarms env now (sw # sws) st =
     (case eval_swarm env now sw st of
        Inl r \<Rightarrow> Inl r
      | Inr st' \<Rightarrow> for_swarms env now sws st')"

text \<open>\<open>json.loads(context.cursor or "{}")\<close>.\<close>

definition load_cursor :: "'w env \<Rightarrow> string option \<Rightarrow> string + json" where
  "load_cursor env c =
     json_loads env (case c of None \<Rightarrow> ''{}'' | Some s \<Rightarrow> if s = [] then ''{}'' else s)"

text \<open>
  One evaluation of the sensor at the instant \<open>now\<close>, from \<open>context.cursor = c\<close> and the
  registry in state \<open>w\<close>. \<open>.items()\<close> exists on a dict only; \<open>update_cursor\<close> is reached
  only at the end of a loop that no exception left.
\<close>

definition swarm_schedule_sensor :: "'w env \<Rightarrow> datetime \<Rightarrow> string option \<Rightarrow> 'w \<Rightarrow> 'w tick" where
  "swarm_schedule_sensor env now c w =
     (let st0 = \<lparr>cursor = [], triggered = [], world = w, run_calls = []\<rparr>
      in case load_cursor env c of
        Inl msg \<Rightarrow> \<lparr>returned = Inl (JSONDecodeError msg), context_cursor = c, final = st0\<rparr>
      | Inr (JObject items) \<Rightarrow>
          (case get_swarms env w of
             (Inl e, w1) \<Rightarrow>
               \<lparr>returned = Inr (SkipReason (''API error: '' @ e)), context_cursor = c,
                final = st0\<lparr>cursor := prune now items, world := w1\<rparr>\<rparr>
           | (Inr swarms, w1) \<Rightarrow>
               (case for_swarms env now swarms (st0\<lparr>cursor := prune now items, world := w1\<rparr>) of
                  Inl (ex, st) \<Rightarrow> \<lparr>returned = Inl ex, context_cursor = c, final = st\<rparr>
                | Inr st \<Rightarrow>
                    \<lparr>returned =
                       Inr (if triggered st \<noteq> [] then ReturnNone
                            else SkipReason ''No swarms matched current time''),
                     context_cursor = Some (json_dumps env (JObject (cursor st))),
                     final = st\<rparr>))
      | Inr other \<Rightarrow> \<lparr>returned = Inl AttributeError, context_cursor = c, final = st0\<rparr>)"

section \<open>The conventions of the specification\<close>

text \<open>
  The names of the days behind the two numberings: \<open>datetime.weekday()\<close> counts from
  Monday = 0 to Sunday = 6, a cron expression from Sunday = 0 to Saturday = 6.
\<close>

datatype day_name = Monday | Tuesday | Wednesday | Thursday | Friday | Saturday | Sunday

definition native_day :: "int \<Rightarrow> day_name" where
  "native_day n =
     (if n = 0 then Monday else if n = 1 then Tuesday else if n = 2 then Wednesday
      else if n = 3 then Thursday else if n = 4 then Friday else if n = 5 then Saturday
      else Sunday)"

fun cron_day_number :: "day_name \<Rightarrow> int" where
  "cron_day_number Sunday = 0"
| "cron_day_number Monday = 1"
| "cron_day_number Tuesday = 2"
| "cron_day_number Wednesday = 3"
| "cron_day_number Thursday = 4"
| "cron_day_number Friday = 5"
| "cron_day_number Saturday = 6"

text \<open>The tokens of a comma list, written out with the separator between them.\<close>

fun join_on :: "char \<Rightarrow> string list \<Rightarrow> string" where
  "join_on sep [] = []"
| "join_on sep [t] = t"
| "join_on sep (t # u # ts) = t @ sep # join_on sep (u # ts)"






text \<open>A swarm that the loop goes on to the dedup check with: not paused, and its cron matches.\<close>

definition due :: "datetime \<Rightarrow> swarm \<Rightarrow> bool" where
  "due now sw =
     (\<not> is_paused sw \<and>
      (case get_effective_cron sw of
         None \<Rightarrow> False
       | Some cron_expr \<Rightarrow> cron_expr \<noteq> [] \<and> cron_matches cron_expr now = Inr True))"

text \<open>A swarm whose cron expression makes the matcher raise at this instant.\<close>

definition raising :: "datetime \<Rightarrow> swarm \<Rightarrow> bool" where
  "raising now sw =
     (\<not> is_paused sw \<and>
      (case get_effective_cron sw of
         None \<Rightarrow> False
       | Some cron_expr \<Rightarrow> cron_expr \<noteq> [] \<and> isl (cron_matches cron_expr now)))"

text \<open>The keys of a decoded cursor.\<close>

definition keys :: "(string \<times> json) list \<Rightarrow> string set" where
  "keys items = fst ` set items"

text \<open>An entry written for the current slot: \<open>true\<close> under the dedup key of a listed swarm.\<close>

definition fresh_entry :: "datetime \<Rightarrow> swarm list \<Rightarrow> string \<times> json \<Rightarrow> bool" where
  "fresh_entry now swarms kv =
     (snd kv = JBool True \<and> fst kv \<in> dedup_key now ` swarm_id ` set swarms)"

text \<open>
  The invariant of the call log while every trigger call returns: each id was called at
  most once, and the key of each called id is in the ledger.
\<close>

definition settled :: "datetime \<Rightarrow> 'w loop_state \<Rightarrow> bool" where
  "settled now st =
     (distinct (map fst (run_calls st)) \<and>
      list_all (\<lambda>call. dedup_key now (fst call) \<in> keys (cursor st)) (run_calls st))"

text \<open>
  The calls a run owes: one returning call for each due swarm whose key is not among \<open>ks\<close>.
\<close>

definition first_calls :: "datetime \<Rightarrow> string set \<Rightarrow> swarm list \<Rightarrow> (string \<times> bool) set" where
  "first_calls now ks sws =
     (\<lambda>sw. (swarm_id sw, True)) ` {sw \<in> set sws. due now sw \<and> dedup_key now (swarm_id sw) \<notin> ks}"

section \<open>An example registry and codec\<close>

text \<open>
  A concrete environment to run the sensor in. The registry counts the calls it has
  received; the listing returns a fixed answer, and a trigger call fails where
  \<open>fails\<close> says so. The printer writes a cursor whose keys need no escaping and whose
  values are all \<open>true\<close> the way \<open>json.dumps\<close> does, and the reader knows the texts
  below, on which it agrees with \<open>json.loads\<close>.
\<close>

fun example_items :: "(string \<times> json) list \<Rightarrow> string" where
  "example_items [] = []"
| "example_items [kv] = ''\"'' @ fst kv @ ''\": true''"
| "example_items (kv # kv' # kvs) = ''\"'' @ fst kv @ ''\": true, '' @ example_items (kv' # kvs)"

definition example_dumps :: "json \<Rightarrow> string" where
  "example_dumps j = (case j of JObject items \<Rightarrow> ''{'' @ example_items items @ ''}'' | _ \<Rightarrow> ''null'')"

definition example_loads :: "string \<Rightarrow> string + json" where
  "example_loads s =
     (if s = ''{}'' then Inr (JObject [])
      else if s = ''{\"2024-01-14-09-00:swarm-a\": true}''
        then Inr (JObject [(''2024-01-14-09-00:swarm-a'', JBool True)])
      else if s = ''{\"2024-01-15-09-00:swarm-b\": true}''
        then Inr (JObject [(''2024-01-15-09-00:swarm-b'', JBool True)])
      else if s = ''{\"2024-01-15-09-00:swarm-a\": true, \"2024-01-15-09-00:swarm-b\": true}''
        then Inr (JObject [(''2024-01-15-09-00:swarm-a'', JBool True),
                           (''2024-01-15-09-00:swarm-b'', JBool True)])
      else if s = ''[]'' then Inr (JArray [])
      else Inl ''Expecting value: line 1 column 1 (char 0)'')"

definition example_env :: "(string + swarm list) \<Rightarrow> (string \<Rightarrow> nat \<Rightarrow> bool) \<Rightarrow> nat env" where
  "example_env listing fails =
     \<lparr>json_loads = example_loads,
      json_dumps = example_dumps,
      get_swarms = (\<lambda>w. (listing, Suc w)),
      run_swarm = (\<lambda>sid w. (if fails sid w then Inl ''HTTP Error 500'' else Inr (JObject []), Suc w))\<rparr>"

definition never_fails :: "string \<Rightarrow> nat \<Rightarrow> bool" where
  "never_fails sid w = False"

definition fails_for_a :: "string \<Rightarrow> nat \<Rightarrow> bool" where
  "fails_for_a sid w = (sid = ''swarm-a'')"

text \<open>The registry refuses the first two calls it receives, the listing being the first.\<close>

definition fails_at_first :: "string \<Rightarrow> nat \<Rightarrow> bool" where
  "fails_at_first sid w = (w < 2)"

definition swarm_a :: swarm where
  "swarm_a = \<lparr>swarm_id = ''swarm-a'', display_name = Some ''Alpha'', is_paused = False,
              schedule_type = Some ''daily'', cron_expression = None\<rparr>"

definition swarm_b :: swarm where
  "swarm_b = \<lparr>swarm_id = ''swarm-b'', display_name = None, is_paused = False,
              schedule_type = Some ''custom'', cron_expression = Some ''*/15 * * * *''\<rparr>"

text \<open>A swarm whose custom expression has a word where the minute should be.\<close>

definition swarm_c :: swarm where
  "swarm_c = \<lparr>swarm_id = ''swarm-c'', display_name = None, is_paused = False,
              schedule_type = Some ''custom'', cron_expression = Some ''a * * * *''\<rparr>"

definition monday_9 :: datetime where
  "monday_9 = \<lparr>year = 2024, month = 1, day = 15, hour = 9, minute = 0\<rparr>"

section \<open>Facts about the primitives\<close>

lemma py_and_Inr: "py_and (Inr a) (Inr b) = Inr (a \<and> b)"
  by (cases a) simp_all

lemma weekday_range: "0 \<le> weekday dt \<and> weekday dt < 7"
  by (simp add: weekday_def)

section \<open>Weekday convention\<close>

lemma cron_weekday_native: "cron_weekday dt = cron_day_number (native_day (weekday dt))"
proof -
  have "weekday dt \<in> {0, 1, 2, 3, 4, 5, 6}"
    using weekday_range [of dt] by auto
  then show ?thesis
    by (auto simp: cron_weekday_def native_day_def)
qed

lemma native_day_Monday:
  "0 \<le> n \<Longrightarrow> n < 7 \<Longrightarrow> (native_day n = Monday) = (cron_day_number (native_day n) = 1)"
  by (auto simp: native_day_def)

lemma split_weekly: "str_split (str_strip ''0 9 * * 1'') = [''0'', ''9'', ''*'', ''*'', ''1'']"
  by code_simp

lemma int_0: "py_int ''0'' = Some 0"
  by code_simp

lemma int_9: "py_int ''9'' = Some 9"
  by code_simp

lemma int_1: "py_int ''1'' = Some 1"
  by code_simp

lemma field_0: "matches_field ''0'' v = Inr (v = 0)"
  by (simp add: matches_field_def int_0)

lemma field_9: "matches_field ''9'' v = Inr (v = 9)"
  by (simp add: matches_field_def int_9)

lemma field_1: "matches_field ''1'' v = Inr (v = 1)"
  by (simp add: matches_field_def int_1)

lemma field_star: "matches_field ''*'' v = Inr True"
  by (simp add: matches_field_def)

lemma weekly_matches:
  "cron_matches ''0 9 * * 1'' dt
     = Inr (minute dt = 0 \<and> hour dt = 9 \<and> native_day (weekday dt) = Monday)"
  using weekday_range [of dt]
  by (simp add: cron_matches_def split_weekly field_0 field_9 field_1 field_star py_and_Inr
        cron_weekday_native native_day_Monday)

lemma monday_15: "weekday \<lparr>year = 2024, month = 1, day = 15, hour = 9, minute = 0\<rparr> = 0"
  by (simp add: weekday_def toordinal_def days_before_year_def days_before_month_def is_leap_def)

lemma tuesday_16: "weekday \<lparr>year = 2024, month = 1, day = 16, hour = 9, minute = 0\<rparr> = 1"
  by (simp add: weekday_def toordinal_def days_before_year_def days_before_month_def is_leap_def)

text \<open>
  C6. At every instant the day-of-week number the matcher compares with is the cron number
  of the day (Sunday = 0 .. Saturday = 6) that the native weekday (Monday = 0 .. Sunday = 6)
  stands for. So \<open>0 9 * * 1\<close> matches exactly at 09:00 on a Monday: it matches Monday
  2024-01-15 09:00 and does not match Tuesday 2024-01-16 09:00.
\<close>

theorem weekday_convention:
  "cron_weekday dt = cron_day_number (native_day (weekday dt)) \<and>
   0 \<le> cron_weekday dt \<and> cron_weekday dt \<le> 6 \<and>
   cron_matches ''0 9 * * 1'' dt
     = Inr (minute dt = 0 \<and> hour dt = 9 \<and> native_day (weekday dt) = Monday) \<and>
   native_day (weekday \<lparr>year = 2024, month = 1, day = 15, hour = 9, minute = 0\<rparr>) = Monday \<and>
   cron_matches ''0 9 * * 1'' \<lparr>year = 2024, month = 1, day = 15, hour = 9, minute = 0\<rparr>
     = Inr True \<and>
   native_day (weekday \<lparr>year = 2024, month = 1, day = 16, hour = 9, minute = 0\<rparr>) = Tuesday \<and>
   cron_matches ''0 9 * * 1'' \<lparr>year = 2024, month = 1, day = 16, hour = 9, minute = 0\<rparr>
     = Inr False"
proof -
  have "0 \<le> cron_weekday dt \<and> cron_weekday dt \<le> 6"
    by (simp add: cron_weekday_def)
  then show ?thesis
    by (simp add: cron_weekday_native weekly_matches monday_15 tuesday_16 native_day_def)
qed

section \<open>Schedule resolver\<close>

text \<open>
  C7. The effective cron of a swarm is null when its schedule type is missing, null or
  empty; otherwise its own cron expression when it has a non-empty one, whatever the type;
  otherwise the default of the type (daily, weekly, monthly); and null for any other type.
\<close>

theorem schedule_resolver:
  "get_effective_cron sw =
     (if schedule_type sw = None \<or> schedule_type sw = Some [] then None
      else if cron_expression sw \<noteq> None \<and> cron_expression sw \<noteq> Some []
        then cron_expression sw
      else if schedule_type sw = Some ''daily'' then Some ''0 9 * * *''
      else if schedule_type sw = Some ''weekly'' then Some ''0 9 * * 1''
      else if schedule_type sw = Some ''monthly'' then Some ''0 9 1 * *''
      else None)"
  by (auto simp: get_effective_cron_def defaults_def split: option.splits)

section \<open>Pruning\<close>

lemma length_dec_digits: "length (dec_digits k n) = k"
  by (induction k n rule: dec_digits.induct) simp_all

lemma length_cutoff: "length (cutoff now) = 13"
  by (simp add: cutoff_def zero_pad_def length_dec_digits)

lemma startswith_split: "startswith k p \<Longrightarrow> \<exists>r. k = p @ r"
  by (induction k p rule: startswith.induct) auto

lemma str_gt_extension: "str_gt (p @ c # r) p"
  by (induction p) simp_all

lemma current_hour_subsumed:
  assumes "startswith k (cutoff now)"
  shows "str_gt k (take 10 (cutoff now))"
proof -
  from startswith_split [OF assms] obtain r where k: "k = cutoff now @ r" by blast
  have "drop 10 (cutoff now) \<noteq> []"
    by (simp add: length_cutoff)
  then obtain c cs where d: "drop 10 (cutoff now) = c # cs"
    by (cases "drop 10 (cutoff now)") auto
  have "k = take 10 (cutoff now) @ c # (cs @ r)"
    using k d append_take_drop_id [of 10 "cutoff now"] by (metis append.assoc append_Cons)
  then show ?thesis
    using str_gt_extension [of "take 10 (cutoff now)" c "cs @ r"] by simp
qed

lemma keep_key_date: "keep_key now k = str_gt k (take 10 (cutoff now))"
  using current_hour_subsumed [of k now] by (auto simp: keep_key_def)

text \<open>
  C8. The clean-up keeps a key exactly when it is greater than the ten characters of
  today's date: the test for the current hour adds nothing, since a key that starts with
  the cutoff extends the date and so is greater than it. At 2024-01-15 09:00 the cutoff is
  \<open>2024-01-15-09\<close>. The key of 07:00 on the same day does not start with it, and its
  date does not sort after today's date, yet the clean-up keeps it.
\<close>

theorem prune_retains_earlier_hour_of_today:
  "keep_key now k = str_gt k (take 10 (cutoff now)) \<and>
   cutoff \<lparr>year = 2024, month = 1, day = 15, hour = 9, minute = 0\<rparr> = ''2024-01-15-09'' \<and>
   \<not> startswith ''2024-01-15-07-00:abc'' ''2024-01-15-09'' \<and>
   \<not> str_gt (take 10 ''2024-01-15-07-00:abc'') (take 10 ''2024-01-15-09'') \<and>
   prune \<lparr>year = 2024, month = 1, day = 15, hour = 9, minute = 0\<rparr>
     [(''2024-01-15-07-00:abc'', JBool True)] = [(''2024-01-15-07-00:abc'', JBool True)]"
proof -
  have "cutoff \<lparr>year = 2024, month = 1, day = 15, hour = 9, minute = 0\<rparr> = ''2024-01-15-09'' \<and>
   \<not> startswith ''2024-01-15-07-00:abc'' ''2024-01-15-09'' \<and>
   \<not> str_gt (take 10 ''2024-01-15-07-00:abc'') (take 10 ''2024-01-15-09'') \<and>
   prune \<lparr>year = 2024, month = 1, day = 15, hour = 9, minute = 0\<rparr>
     [(''2024-01-15-07-00:abc'', JBool True)] = [(''2024-01-15-07-00:abc'', JBool True)]"
    by code_simp
  with keep_key_date [of now k] show ?thesis by blast
qed

section \<open>The loop over the swarms\<close>

lemma eval_swarm_not_due:
  "\<not> due now sw \<Longrightarrow> \<not> raising now sw \<Longrightarrow> eval_swarm env now sw st = Inr st"
  by (auto simp: eval_swarm_def due_def raising_def split: option.splits sum.splits)

lemma eval_swarm_due:
  "due now sw \<Longrightarrow>
   eval_swarm env now sw st =
     (if dedup_key now (swarm_id sw) \<in> keys (cursor st) then Inr st
      else Inr (trigger env now sw st))"
  by (auto simp: eval_swarm_def due_def keys_def split: option.splits sum.splits)

lemma eval_swarm_raising:
  "raising now sw \<Longrightarrow> isl (eval_swarm env now sw st)"
  by (auto simp: eval_swarm_def raising_def split: option.splits sum.splits)

lemma due_not_raising: "due now sw \<Longrightarrow> \<not> raising now sw"
  by (auto simp: due_def raising_def split: option.splits)

lemma trigger_cursor:
  "cursor (trigger env now sw st) = cursor st \<or>
   cursor (trigger env now sw st) = cursor st @ [(dedup_key now (swarm_id sw), JBool True)]"
  by (auto simp: trigger_def split: prod.splits sum.splits)

lemma eval_swarm_cursor:
  assumes "eval_swarm env now sw st = Inr st'"
  shows "cursor st' = cursor st \<or>
         cursor st' = cursor st @ [(dedup_key now (swarm_id sw), JBool True)]"
proof (cases "due now sw")
  case True
  with assms show ?thesis
    using trigger_cursor [of env now sw st] by (auto simp: eval_swarm_due split: if_splits)
next
  case False
  show ?thesis
  proof (cases "raising now sw")
    case True
    with assms eval_swarm_raising [of now sw env st] show ?thesis by auto
  next
    case False
    with \<open>\<not> due now sw\<close> assms show ?thesis by (simp add: eval_swarm_not_due)
  qed
qed

lemma for_swarms_cursor:
  "for_swarms env now sws st = Inr st' \<Longrightarrow>
   \<exists>added. cursor st' = cursor st @ added \<and> list_all (fresh_entry now sws) added"
proof (induction sws arbitrary: st)
  case Nil
  then show ?case by simp
next
  case (Cons sw sws)
  from Cons.prems obtain st1 where
    step: "eval_swarm env now sw st = Inr st1" and rest: "for_swarms env now sws st1 = Inr st'"
    by (auto split: sum.splits)
  from Cons.IH [OF rest] obtain added where
    added: "cursor st' = cursor st1 @ added" "list_all (fresh_entry now sws) added"
    by blast
  have mono: "list_all (fresh_entry now (sw # sws)) added"
    using added(2) by (auto simp: list_all_iff fresh_entry_def)
  from eval_swarm_cursor [OF step] show ?case
  proof
    assume "cursor st1 = cursor st"
    with added mono show ?thesis by auto
  next
    assume "cursor st1 = cursor st @ [(dedup_key now (swarm_id sw), JBool True)]"
    moreover have "fresh_entry now (sw # sws) (dedup_key now (swarm_id sw), JBool True)"
      by (simp add: fresh_entry_def)
    ultimately show ?thesis
      using added mono
      by (intro exI [of _ "(dedup_key now (swarm_id sw), JBool True) # added"]) simp
  qed
qed


lemma dedup_key_inj: "(dedup_key now a = dedup_key now b) = (a = b)"
  by (simp add: dedup_key_def)

lemma eval_swarm_Inr:
  "\<not> raising now sw \<Longrightarrow> \<exists>st1. eval_swarm env now sw st = Inr st1"
  by (cases "due now sw") (simp_all add: eval_swarm_due eval_swarm_not_due)

lemma for_swarms_completes:
  "\<forall>sw \<in> set sws. \<not> raising now sw \<Longrightarrow> \<exists>st'. for_swarms env now sws st = Inr st'"
proof (induction sws arbitrary: st)
  case Nil
  then show ?case by simp
next
  case (Cons sw sws)
  then obtain st1 where "eval_swarm env now sw st = Inr st1"
    using eval_swarm_Inr [of now sw env st] by auto
  with Cons show ?case by simp
qed

lemma trigger_failed:
  "isl (fst (run_swarm env (swarm_id sw) (world st))) \<Longrightarrow>
   cursor (trigger env now sw st) = cursor st \<and>
   triggered (trigger env now sw st) = triggered st \<and>
   run_calls (trigger env now sw st) = run_calls st @ [(swarm_id sw, False)]"
  by (auto simp: trigger_def split: prod.splits sum.splits)

lemma trigger_succeeded:
  "\<not> isl (fst (run_swarm env (swarm_id sw) (world st))) \<Longrightarrow>
   cursor (trigger env now sw st) = cursor st @ [(dedup_key now (swarm_id sw), JBool True)] \<and>
   triggered (trigger env now sw st) = triggered st @ [shown_name sw] \<and>
   run_calls (trigger env now sw st) = run_calls st @ [(swarm_id sw, True)]"
  by (auto simp: trigger_def split: prod.splits sum.splits)

lemma eval_swarm_grows:
  assumes "eval_swarm env now sw st = Inr st1"
  shows "set (cursor st) \<subseteq> set (cursor st1) \<and> set (triggered st) \<subseteq> set (triggered st1) \<and>
         set (run_calls st) \<subseteq> set (run_calls st1)"
proof (cases "due now sw")
  case True
  show ?thesis
  proof (cases "isl (fst (run_swarm env (swarm_id sw) (world st)))")
    case True
    with \<open>due now sw\<close> assms trigger_failed [of env sw st now] show ?thesis
      by (auto simp: eval_swarm_due split: if_splits)
  next
    case False
    with \<open>due now sw\<close> assms trigger_succeeded [of env sw st now] show ?thesis
      by (auto simp: eval_swarm_due split: if_splits)
  qed
next
  case False
  then show ?thesis
    using assms eval_swarm_raising [of now sw env st]
    by (cases "raising now sw") (auto simp: eval_swarm_not_due)
qed

lemma for_swarms_grows:
  "for_swarms env now sws st = Inr st' \<Longrightarrow>
   set (cursor st) \<subseteq> set (cursor st') \<and> set (triggered st) \<subseteq> set (triggered st') \<and>
   set (run_calls st) \<subseteq> set (run_calls st')"
proof (induction sws arbitrary: st)
  case Nil
  then show ?case by simp
next
  case (Cons sw sws)
  from Cons.prems obtain st1 where
    step: "eval_swarm env now sw st = Inr st1" and rest: "for_swarms env now sws st1 = Inr st'"
    by (auto split: sum.splits)
  from eval_swarm_grows [OF step] Cons.IH [OF rest] show ?case by blast
qed

lemma eval_swarm_new_key:
  assumes "eval_swarm env now sw st = Inr st1" and "k \<in> keys (cursor st1)"
  shows "k \<in> keys (cursor st) \<or>
         (k = dedup_key now (swarm_id sw) \<and> \<not> isl (fst (run_swarm env (swarm_id sw) (world st))))"
proof (cases "due now sw")
  case True
  show ?thesis
  proof (cases "isl (fst (run_swarm env (swarm_id sw) (world st)))")
    case True
    with \<open>due now sw\<close> assms trigger_failed [of env sw st now] show ?thesis
      by (auto simp: eval_swarm_due split: if_splits)
  next
    case False
    with \<open>due now sw\<close> assms trigger_succeeded [of env sw st now] show ?thesis
      by (auto simp: eval_swarm_due keys_def split: if_splits)
  qed
next
  case False
  then show ?thesis
    using assms eval_swarm_raising [of now sw env st]
    by (cases "raising now sw") (auto simp: eval_swarm_not_due)
qed

lemma failing_key_stays_absent:
  assumes fails: "\<forall>w'. isl (fst (run_swarm env sid w'))"
  shows "for_swarms env now sws st = Inr st' \<Longrightarrow> dedup_key now sid \<notin> keys (cursor st) \<Longrightarrow>
         dedup_key now sid \<notin> keys (cursor st')"
proof (induction sws arbitrary: st)
  case Nil
  then show ?case by simp
next
  case (Cons sw sws)
  from Cons.prems obtain st1 where
    step: "eval_swarm env now sw st = Inr st1" and rest: "for_swarms env now sws st1 = Inr st'"
    by (auto split: sum.splits)
  have "dedup_key now sid \<notin> keys (cursor st1)"
    using eval_swarm_new_key [OF step, of "dedup_key now sid"] Cons.prems(2) fails
    by (auto simp: dedup_key_inj)
  with Cons.IH [OF rest] show ?case by simp
qed

lemma failing_swarm_is_called:
  assumes fails: "\<forall>w'. isl (fst (run_swarm env (swarm_id a) w'))" and due: "due now a"
  shows "for_swarms env now sws st = Inr st' \<Longrightarrow> a \<in> set sws \<Longrightarrow>
         dedup_key now (swarm_id a) \<notin> keys (cursor st) \<Longrightarrow>
         (swarm_id a, False) \<in> set (run_calls st')"
proof (induction sws arbitrary: st)
  case Nil
  then show ?case by simp
next
  case (Cons sw sws)
  from Cons.prems obtain st1 where
    step: "eval_swarm env now sw st = Inr st1" and rest: "for_swarms env now sws st1 = Inr st'"
    by (auto split: sum.splits)
  show ?case
  proof (cases "sw = a")
    case True
    with step due Cons.prems(3) fails trigger_failed [of env a st now]
    have "(swarm_id a, False) \<in> set (run_calls st1)"
      by (auto simp: eval_swarm_due)
    with for_swarms_grows [OF rest] show ?thesis by blast
  next
    case False
    with Cons.prems have mem: "a \<in> set sws" by simp
    have "dedup_key now (swarm_id a) \<notin> keys (cursor st1)"
      using eval_swarm_new_key [OF step, of "dedup_key now (swarm_id a)"] Cons.prems(3) fails
      by (auto simp: dedup_key_inj)
    with Cons.IH [OF rest mem] show ?thesis by simp
  qed
qed

lemma succeeding_swarm_is_triggered:
  assumes ok: "\<forall>w'. \<not> isl (fst (run_swarm env (swarm_id b) w'))" and due: "due now b"
  shows "for_swarms env now sws st = Inr st' \<Longrightarrow> b \<in> set sws \<Longrightarrow>
         distinct (map swarm_id sws) \<Longrightarrow>
         dedup_key now (swarm_id b) \<notin> keys (cursor st) \<Longrightarrow>
         shown_name b \<in> set (triggered st') \<and>
         (dedup_key now (swarm_id b), JBool True) \<in> set (cursor st') \<and>
         (swarm_id b, True) \<in> set (run_calls st')"
proof (induction sws arbitrary: st)
  case Nil
  then show ?case by simp
next
  case (Cons sw sws)
  from Cons.prems obtain st1 where
    step: "eval_swarm env now sw st = Inr st1" and rest: "for_swarms env now sws st1 = Inr st'"
    by (auto split: sum.splits)
  show ?case
  proof (cases "sw = b")
    case True
    with step due Cons.prems(4) ok trigger_succeeded [of env b st now]
    have "shown_name b \<in> set (triggered st1) \<and>
          (dedup_key now (swarm_id b), JBool True) \<in> set (cursor st1) \<and>
          (swarm_id b, True) \<in> set (run_calls st1)"
      by (auto simp: eval_swarm_due)
    with for_swarms_grows [OF rest] show ?thesis by blast
  next
    case False
    with Cons.prems have mem: "b \<in> set sws" and dist: "distinct (map swarm_id sws)"
      and other: "swarm_id sw \<noteq> swarm_id b"
      by auto
    have "dedup_key now (swarm_id b) \<notin> keys (cursor st1)"
      using eval_swarm_new_key [OF step, of "dedup_key now (swarm_id b)"] Cons.prems(4) other
      by (auto simp: dedup_key_inj)
    with Cons.IH [OF rest mem dist] show ?thesis by simp
  qed
qed

lemma sensor_load_error:
  "load_cursor env c = Inl msg \<Longrightarrow>
   swarm_schedule_sensor env now c w =
     \<lparr>returned = Inl (JSONDecodeError msg), context_cursor = c,
      final = \<lparr>cursor = [], triggered = [], world = w, run_calls = []\<rparr>\<rparr>"
  by (simp add: swarm_schedule_sensor_def)

lemma sensor_not_dict:
  "load_cursor env c = Inr j \<Longrightarrow> \<not> (\<exists>items. j = JObject items) \<Longrightarrow>
   swarm_schedule_sensor env now c w =
     \<lparr>returned = Inl AttributeError, context_cursor = c,
      final = \<lparr>cursor = [], triggered = [], world = w, run_calls = []\<rparr>\<rparr>"
  by (cases j) (simp_all add: swarm_schedule_sensor_def)

lemma sensor_fetch_failed:
  "load_cursor env c = Inr (JObject items) \<Longrightarrow> get_swarms env w = (Inl e, w1) \<Longrightarrow>
   swarm_schedule_sensor env now c w =
     \<lparr>returned = Inr (SkipReason (''API error: '' @ e)), context_cursor = c,
      final = \<lparr>cursor = prune now items, triggered = [], world = w1, run_calls = []\<rparr>\<rparr>"
  by (simp add: swarm_schedule_sensor_def)


lemma sensor_completed:
  "load_cursor env c = Inr (JObject items) \<Longrightarrow> get_swarms env w = (Inr swarms, w1) \<Longrightarrow>
   for_swarms env now swarms
     \<lparr>cursor = prune now items, triggered = [], world = w1, run_calls = []\<rparr> = Inr st \<Longrightarrow>
   swarm_schedule_sensor env now c w =
     \<lparr>returned = Inr (if triggered st \<noteq> [] then ReturnNone
                      else SkipReason ''No swarms matched current time''),
      context_cursor = Some (json_dumps env (JObject (cursor st))),
      final = st\<rparr>"
  by (simp add: swarm_schedule_sensor_def)


section \<open>The example run\<close>

lemma example_due_a: "due monday_9 swarm_a"
  by code_simp

lemma example_due_b: "due monday_9 swarm_b"
  by code_simp

lemma example_key_a: "dedup_key monday_9 ''swarm-a'' = ''2024-01-15-09-00:swarm-a''"
  by code_simp

lemma example_key_b: "dedup_key monday_9 ''swarm-b'' = ''2024-01-15-09-00:swarm-b''"
  by code_simp

lemma example_prune_yesterday:
  "prune monday_9 [(''2024-01-14-09-00:swarm-a'', JBool True)] = []"
  by code_simp

lemma example_load_yesterday:
  "load_cursor (example_env listing fails) (Some ''{\"2024-01-14-09-00:swarm-a\": true}'')
     = Inr (JObject [(''2024-01-14-09-00:swarm-a'', JBool True)])"
  by (simp add: load_cursor_def example_env_def example_loads_def)

lemma example_quiet: "\<forall>sw \<in> set [swarm_a, swarm_b]. \<not> raising monday_9 sw"
  by (simp add: due_not_raising example_due_a example_due_b)

lemma example_load_current:
  "load_cursor (example_env listing fails) (Some ''{\"2024-01-15-09-00:swarm-b\": true}'')
     = Inr (JObject [(''2024-01-15-09-00:swarm-b'', JBool True)])"
  by (simp add: load_cursor_def example_env_def example_loads_def)

lemma example_load_malformed:
  "load_cursor (example_env listing fails) (Some ''{not json'')
     = Inl ''Expecting value: line 1 column 1 (char 0)''"
  by (simp add: load_cursor_def example_env_def example_loads_def)

lemma example_load_empty:
  "json_loads (example_env listing fails) ''{}'' = Inr (JObject [])"
  by (simp add: example_env_def example_loads_def)

lemma example_run:
  "swarm_schedule_sensor (example_env (Inr [swarm_a, swarm_b]) never_fails) monday_9
     (Some ''{\"2024-01-14-09-00:swarm-a\": true}'') 0 =
   \<lparr>returned = Inr ReturnNone,
    context_cursor =
      Some ''{\"2024-01-15-09-00:swarm-a\": true, \"2024-01-15-09-00:swarm-b\": true}'',
    final = \<lparr>cursor = [(''2024-01-15-09-00:swarm-a'', JBool True),
                       (''2024-01-15-09-00:swarm-b'', JBool True)],
             triggered = [''Alpha'', ''swarm-b''], world = 3,
             run_calls = [(''swarm-a'', True), (''swarm-b'', True)]\<rparr>\<rparr>"
  by code_simp

section \<open>Cursor loading\<close>

text \<open>
  C9. Loading reads \<open>{}\<close> in place of a missing or empty cursor, which gives the empty
  ledger; it reads any other cursor as it is, so a well-formed one gives what it decodes
  to; and when the decoder rejects the text, the error leaves the sensor as an exception,
  with the cursor as it was and no call made.
\<close>

theorem cursor_loading:
  "(json_loads env ''{}'' = Inr (JObject []) \<and> (c = None \<or> c = Some [])
      \<longrightarrow> load_cursor env c = Inr (JObject [])) \<and>
   (c = Some s \<and> s \<noteq> [] \<longrightarrow> load_cursor env c = json_loads env s) \<and>
   (load_cursor env c = Inl msg \<longrightarrow>
      returned (swarm_schedule_sensor env now c w) = Inl (JSONDecodeError msg) \<and>
      context_cursor (swarm_schedule_sensor env now c w) = c \<and>
      world (final (swarm_schedule_sensor env now c w)) = w \<and>
      run_calls (final (swarm_schedule_sensor env now c w)) = [])"
  by (auto simp: load_cursor_def sensor_load_error)

theorem cursor_loading_witness:
  "load_cursor (example_env (Inr [swarm_a]) never_fails) None = Inr (JObject []) \<and>
   load_cursor (example_env (Inr [swarm_a]) never_fails) (Some []) = Inr (JObject []) \<and>
   load_cursor (example_env (Inr [swarm_a]) never_fails)
       (Some ''{\"2024-01-15-09-00:swarm-b\": true}'')
     = Inr (JObject [(''2024-01-15-09-00:swarm-b'', JBool True)]) \<and>
   returned (swarm_schedule_sensor (example_env (Inr [swarm_a]) never_fails) monday_9
       (Some ''{not json'') 0)
     = Inl (JSONDecodeError ''Expecting value: line 1 column 1 (char 0)'') \<and>
   context_cursor (swarm_schedule_sensor (example_env (Inr [swarm_a]) never_fails) monday_9
       (Some ''{not json'') 0) = Some ''{not json''"
proof -
  let ?env = "example_env (Inr [swarm_a]) never_fails"
  have known: "json_loads ?env ''{\"2024-01-15-09-00:swarm-b\": true}''
                 = Inr (JObject [(''2024-01-15-09-00:swarm-b'', JBool True)])"
    by (simp add: example_env_def example_loads_def)
  from cursor_loading [where env = ?env and c = None]
  have 1: "load_cursor ?env None = Inr (JObject [])"
    by (simp add: example_load_empty)
  from cursor_loading [where env = ?env and c = "Some []"]
  have 2: "load_cursor ?env (Some []) = Inr (JObject [])"
    by (simp add: example_load_empty)
  from cursor_loading [where env = ?env and c = "Some ''{\"2024-01-15-09-00:swarm-b\": true}''"
      and s = "''{\"2024-01-15-09-00:swarm-b\": true}''"]
  have 3: "load_cursor ?env (Some ''{\"2024-01-15-09-00:swarm-b\": true}'')
             = Inr (JObject [(''2024-01-15-09-00:swarm-b'', JBool True)])"
    by (simp add: known)
  from cursor_loading [where env = ?env and c = "Some ''{not json''" and now = monday_9 and w = 0
      and msg = "''Expecting value: line 1 column 1 (char 0)''"]
  have 4: "returned (swarm_schedule_sensor ?env monday_9 (Some ''{not json'') 0)
             = Inl (JSONDecodeError ''Expecting value: line 1 column 1 (char 0)'') \<and>
           context_cursor (swarm_schedule_sensor ?env monday_9 (Some ''{not json'') 0) = Some ''{not json''"
    by (simp add: example_load_malformed)
  from 1 2 3 4 show ?thesis by simp
qed

section \<open>Failure of the listing\<close>

text \<open>
  C3. When the listing call fails, the cursor the sensor leaves is the cursor it was given,
  no trigger call has been made and nothing is recorded as triggered; and, the cursor
  having been read as a ledger so that the call was reached, the sensor returns the skip
  whose reason carries the error of the call.
\<close>

theorem fetch_failure_atomicity:
  assumes fetch: "get_swarms env w = (Inl e, w1)"
  shows "context_cursor (swarm_schedule_sensor env now c w) = c \<and>
         run_calls (final (swarm_schedule_sensor env now c w)) = [] \<and>
         triggered (final (swarm_schedule_sensor env now c w)) = [] \<and>
         (\<forall>items. load_cursor env c = Inr (JObject items) \<longrightarrow>
            returned (swarm_schedule_sensor env now c w)
              = Inr (SkipReason (''API error: '' @ e)))"
proof (cases "load_cursor env c")
  case (Inl msg)
  then show ?thesis by (simp add: sensor_load_error)
next
  case (Inr j)
  show ?thesis
  proof (cases "\<exists>items. j = JObject items")
    case True
    then obtain items where "j = JObject items" by blast
    with Inr fetch show ?thesis by (simp add: sensor_fetch_failed)
  next
    case False
    with Inr show ?thesis by (auto simp: sensor_not_dict)
  qed
qed

theorem fetch_failure_atomicity_witness:
  "get_swarms (example_env (Inl ''timed out'') never_fails) 0 = (Inl ''timed out'', 1) \<and>
   load_cursor (example_env (Inl ''timed out'') never_fails)
       (Some ''{\"2024-01-15-09-00:swarm-b\": true}'')
     = Inr (JObject [(''2024-01-15-09-00:swarm-b'', JBool True)]) \<and>
   context_cursor (swarm_schedule_sensor (example_env (Inl ''timed out'') never_fails) monday_9
       (Some ''{\"2024-01-15-09-00:swarm-b\": true}'') 0)
     = Some ''{\"2024-01-15-09-00:swarm-b\": true}'' \<and>
   run_calls (final (swarm_schedule_sensor (example_env (Inl ''timed out'') never_fails)
       monday_9 (Some ''{\"2024-01-15-09-00:swarm-b\": true}'') 0)) = [] \<and>
   returned (swarm_schedule_sensor (example_env (Inl ''timed out'') never_fails) monday_9
       (Some ''{\"2024-01-15-09-00:swarm-b\": true}'') 0)
     = Inr (SkipReason ''API error: timed out'')"
proof -
  let ?env = "example_env (Inl ''timed out'') never_fails"
  have fetch: "get_swarms ?env 0 = (Inl ''timed out'', 1)"
    by (simp add: example_env_def)
  from fetch_failure_atomicity [OF fetch, of monday_9 "Some ''{\"2024-01-15-09-00:swarm-b\": true}''"]
  show ?thesis
    by (simp add: fetch example_load_current)
qed

section \<open>Growth of the ledger\<close>



section \<open>Isolation of a failed trigger\<close>

lemma example_aborted:
  "swarm_schedule_sensor (example_env (Inr [swarm_a, swarm_b, swarm_c]) fails_for_a) monday_9
     None 0 =
   \<lparr>returned = Inl ValueError,
    context_cursor = None,
    final = \<lparr>cursor = [(''2024-01-15-09-00:swarm-b'', JBool True)], triggered = [''swarm-b''],
             world = 3, run_calls = [(''swarm-a'', False), (''swarm-b'', True)]\<rparr>\<rparr>"
  by code_simp

text \<open>
  C4, as stated, fails for a list that holds a third swarm whose cron expression makes the
  matcher raise. At Monday 09:00 the swarms A and B are both due; the call for A fails and
  the call for B returns. The third swarm of the list has the expression \<open>a * * * *\<close>:
  matching it raises \<open>ValueError\<close>, which leaves the loop and the sensor, so the cursor is
  never written and the key of B is in no outgoing ledger.
\<close>

theorem trigger_isolation_aborted_by_raising_swarm:
  "due monday_9 swarm_a \<and> due monday_9 swarm_b \<and>
   run_calls (final (swarm_schedule_sensor
       (example_env (Inr [swarm_a, swarm_b, swarm_c]) fails_for_a) monday_9 None 0))
     = [(''swarm-a'', False), (''swarm-b'', True)] \<and>
   returned (swarm_schedule_sensor
       (example_env (Inr [swarm_a, swarm_b, swarm_c]) fails_for_a) monday_9 None 0)
     = Inl ValueError \<and>
   context_cursor (swarm_schedule_sensor
       (example_env (Inr [swarm_a, swarm_b, swarm_c]) fails_for_a) monday_9 None 0) = None"
  by (simp add: example_due_a example_due_b example_aborted)

text \<open>
  C4, amended. Let the listed swarms have distinct ids and none make the matcher raise, and
  let A and B be two of them, both due and neither yet in the pruned ledger. If the trigger
  call for A fails and the one for B returns, the cycle still runs to its end and reports
  success: the name shown for B is among the triggered, the key of B is in the ledger
  written to the cursor, the key of A is not, and both calls were made.
\<close>

theorem trigger_isolation:
  assumes load: "load_cursor env c = Inr (JObject items)"
    and fetch: "get_swarms env w = (Inr swarms, w1)"
    and ids: "distinct (map swarm_id swarms)"
    and quiet: "\<forall>sw \<in> set swarms. \<not> raising now sw"
    and a: "a \<in> set swarms" "due now a" "dedup_key now (swarm_id a) \<notin> keys (prune now items)"
    and b: "b \<in> set swarms" "due now b" "dedup_key now (swarm_id b) \<notin> keys (prune now items)"
    and a_fails: "\<forall>w'. isl (fst (run_swarm env (swarm_id a) w'))"
    and b_returns: "\<forall>w'. \<not> isl (fst (run_swarm env (swarm_id b) w'))"
  shows "returned (swarm_schedule_sensor env now c w) = Inr ReturnNone \<and>
         shown_name b \<in> set (triggered (final (swarm_schedule_sensor env now c w))) \<and>
         context_cursor (swarm_schedule_sensor env now c w)
           = Some (json_dumps env (JObject (cursor (final (swarm_schedule_sensor env now c w))))) \<and>
         (dedup_key now (swarm_id b), JBool True)
           \<in> set (cursor (final (swarm_schedule_sensor env now c w))) \<and>
         dedup_key now (swarm_id a) \<notin> keys (cursor (final (swarm_schedule_sensor env now c w))) \<and>
         (swarm_id a, False) \<in> set (run_calls (final (swarm_schedule_sensor env now c w))) \<and>
         (swarm_id b, True) \<in> set (run_calls (final (swarm_schedule_sensor env now c w)))"
proof -
  let ?st0 = "\<lparr>cursor = prune now items, triggered = [], world = w1, run_calls = []\<rparr>"
  from for_swarms_completes [OF quiet] obtain st where
    loop: "for_swarms env now swarms ?st0 = Inr st"
    by blast
  have fin: "swarm_schedule_sensor env now c w =
     \<lparr>returned = Inr (if triggered st \<noteq> [] then ReturnNone
                      else SkipReason ''No swarms matched current time''),
      context_cursor = Some (json_dumps env (JObject (cursor st))),
      final = st\<rparr>"
    by (rule sensor_completed [OF load fetch loop])
  have B: "shown_name b \<in> set (triggered st) \<and>
           (dedup_key now (swarm_id b), JBool True) \<in> set (cursor st) \<and>
           (swarm_id b, True) \<in> set (run_calls st)"
    using succeeding_swarm_is_triggered [OF b_returns b(2) loop b(1) ids] b(3) by simp
  have A1: "dedup_key now (swarm_id a) \<notin> keys (cursor st)"
    using failing_key_stays_absent [OF a_fails loop] a(3) by simp
  have A2: "(swarm_id a, False) \<in> set (run_calls st)"
    using failing_swarm_is_called [OF a_fails a(2) loop a(1)] a(3) by simp
  from B have "triggered st \<noteq> []" by auto
  with B A1 A2 show ?thesis by (simp add: fin)
qed


theorem trigger_isolation_witness:
  "shown_name swarm_b = ''swarm-b'' \<and>
   returned (swarm_schedule_sensor (example_env (Inr [swarm_a, swarm_b]) fails_for_a) monday_9
      (Some ''{\"2024-01-14-09-00:swarm-a\": true}'') 0) = Inr ReturnNone \<and>
   ''swarm-b'' \<in> set (triggered (final (swarm_schedule_sensor
      (example_env (Inr [swarm_a, swarm_b]) fails_for_a) monday_9
      (Some ''{\"2024-01-14-09-00:swarm-a\": true}'') 0))) \<and>
   (''2024-01-15-09-00:swarm-b'', JBool True) \<in> set (cursor (final (swarm_schedule_sensor
      (example_env (Inr [swarm_a, swarm_b]) fails_for_a) monday_9
      (Some ''{\"2024-01-14-09-00:swarm-a\": true}'') 0))) \<and>
   ''2024-01-15-09-00:swarm-a'' \<notin> keys (cursor (final (swarm_schedule_sensor
      (example_env (Inr [swarm_a, swarm_b]) fails_for_a) monday_9
      (Some ''{\"2024-01-14-09-00:swarm-a\": true}'') 0))) \<and>
   (''swarm-a'', False) \<in> set (run_calls (final (swarm_schedule_sensor
      (example_env (Inr [swarm_a, swarm_b]) fails_for_a) monday_9
      (Some ''{\"2024-01-14-09-00:swarm-a\": true}'') 0)))"
proof -
  let ?env = "example_env (Inr [swarm_a, swarm_b]) fails_for_a"
  have fetch: "get_swarms ?env 0 = (Inr [swarm_a, swarm_b], 1)"
    by (simp add: example_env_def)
  have ids: "distinct (map swarm_id [swarm_a, swarm_b])"
    by (simp add: swarm_a_def swarm_b_def)
  have ka: "dedup_key monday_9 (swarm_id swarm_a)
              \<notin> keys (prune monday_9 [(''2024-01-14-09-00:swarm-a'', JBool True)])"
    by (simp add: example_prune_yesterday keys_def)
  have kb: "dedup_key monday_9 (swarm_id swarm_b)
              \<notin> keys (prune monday_9 [(''2024-01-14-09-00:swarm-a'', JBool True)])"
    by (simp add: example_prune_yesterday keys_def)
  have fa: "\<forall>w'. isl (fst (run_swarm ?env (swarm_id swarm_a) w'))"
    by (simp add: example_env_def fails_for_a_def swarm_a_def)
  have fb: "\<forall>w'. \<not> isl (fst (run_swarm ?env (swarm_id swarm_b) w'))"
    by (simp add: example_env_def fails_for_a_def swarm_b_def)
  have ida: "swarm_id swarm_a = ''swarm-a''" and idb: "swarm_id swarm_b = ''swarm-b''"
    by (simp_all add: swarm_a_def swarm_b_def)
  have name: "shown_name swarm_b = ''swarm-b''"
    by (simp add: shown_name_def swarm_b_def)
  have ma: "swarm_a \<in> set [swarm_a, swarm_b]" and mb: "swarm_b \<in> set [swarm_a, swarm_b]"
    by simp_all
  from trigger_isolation [OF example_load_yesterday fetch ids example_quiet ma example_due_a ka
      mb example_due_b kb fa fb]
  show ?thesis
    by (simp add: ida idb name example_key_a example_key_b)
qed

section \<open>Dedup across two runs\<close>

lemma startswith_append: "startswith (p @ s) p"
  by (induction p) simp_all

lemma current_minute_cutoff:
  "current_minute now = cutoff now @ ''-'' @ zero_pad 2 (minute now)"
  by (simp add: current_minute_def cutoff_def)

lemma keep_dedup_key: "keep_key now (dedup_key now sid)"
  by (simp add: keep_key_def dedup_key_def current_minute_cutoff startswith_append)

lemma prune_fresh:
  "list_all (fresh_entry now swarms) added \<Longrightarrow> prune now added = added"
  by (induction added) (auto simp: prune_def fresh_entry_def keep_dedup_key)

lemma prune_again:
  "list_all (fresh_entry now swarms) added \<Longrightarrow>
   prune now (prune now items @ added) = prune now items @ added"
  using prune_fresh [of now swarms added] by (simp add: prune_def)

lemma first_run:
  assumes ok: "\<forall>sid w'. \<not> isl (fst (run_swarm env sid w'))"
  shows "\<forall>sw \<in> set sws. \<not> raising now sw \<Longrightarrow> settled now st \<Longrightarrow>
         \<exists>st'. for_swarms env now sws st = Inr st' \<and> settled now st' \<and>
           (\<forall>sw \<in> set sws. due now sw \<longrightarrow> dedup_key now (swarm_id sw) \<in> keys (cursor st')) \<and>
           set (run_calls st') = set (run_calls st) \<union> first_calls now (keys (cursor st)) sws"
proof (induction sws arbitrary: st)
  case Nil
  then show ?case by (simp add: first_calls_def)
next
  case (Cons sw sws)
  then have quiet: "\<forall>x \<in> set sws. \<not> raising now x" and nr: "\<not> raising now sw"
    by simp_all
  show ?case
  proof (cases "due now sw \<and> dedup_key now (swarm_id sw) \<notin> keys (cursor st)")
    case False
    then have step: "eval_swarm env now sw st = Inr st"
      using nr by (cases "due now sw") (simp_all add: eval_swarm_due eval_swarm_not_due)
    from Cons.IH [OF quiet Cons.prems(2)] obtain st' where
      st': "for_swarms env now sws st = Inr st'" "settled now st'"
        "\<forall>x \<in> set sws. due now x \<longrightarrow> dedup_key now (swarm_id x) \<in> keys (cursor st')"
        "set (run_calls st') = set (run_calls st) \<union> first_calls now (keys (cursor st)) sws"
      by blast
    have grow: "keys (cursor st) \<subseteq> keys (cursor st')"
      using for_swarms_grows [OF st'(1)] by (auto simp: keys_def)
    have "first_calls now (keys (cursor st)) (sw # sws) = first_calls now (keys (cursor st)) sws"
      using False by (auto simp: first_calls_def)
    with st' step grow False show ?thesis by auto
  next
    case True
    let ?st1 = "trigger env now sw st"
    have step: "eval_swarm env now sw st = Inr ?st1"
      using True by (simp add: eval_swarm_due)
    have t: "cursor ?st1 = cursor st @ [(dedup_key now (swarm_id sw), JBool True)]"
      "run_calls ?st1 = run_calls st @ [(swarm_id sw, True)]"
      using trigger_succeeded [of env sw st now] ok by simp_all
    have k1: "keys (cursor ?st1) = insert (dedup_key now (swarm_id sw)) (keys (cursor st))"
      by (simp add: t keys_def)
    have "swarm_id sw \<notin> fst ` set (run_calls st)"
      using Cons.prems(2) True by (auto simp: settled_def list_all_iff)
    with Cons.prems(2) have s1: "settled now ?st1"
      by (auto simp: settled_def t(2) k1 list_all_iff)
    from Cons.IH [OF quiet s1] obtain st' where
      st': "for_swarms env now sws ?st1 = Inr st'" "settled now st'"
        "\<forall>x \<in> set sws. due now x \<longrightarrow> dedup_key now (swarm_id x) \<in> keys (cursor st')"
        "set (run_calls st') = set (run_calls ?st1) \<union> first_calls now (keys (cursor ?st1)) sws"
      by blast
    have grow: "keys (cursor ?st1) \<subseteq> keys (cursor st')"
      using for_swarms_grows [OF st'(1)] by (auto simp: keys_def)
    have "insert (swarm_id sw, True) (first_calls now (keys (cursor ?st1)) sws)
            = first_calls now (keys (cursor st)) (sw # sws)"
      using True by (auto simp: first_calls_def k1 dedup_key_inj)
    with st' step grow True show ?thesis by (auto simp: t(2) k1)
  qed
qed

lemma second_run:
  "\<forall>sw \<in> set sws. \<not> raising now sw \<Longrightarrow>
   \<forall>sw \<in> set sws. due now sw \<longrightarrow> dedup_key now (swarm_id sw) \<in> keys (cursor st) \<Longrightarrow>
   for_swarms env now sws st = Inr st"
proof (induction sws)
  case Nil
  then show ?case by simp
next
  case (Cons sw sws)
  then have "eval_swarm env now sw st = Inr st"
    by (cases "due now sw") (simp_all add: eval_swarm_due eval_swarm_not_due)
  with Cons show ?case by simp
qed

lemma example_retry_first:
  "swarm_schedule_sensor (example_env (Inr [swarm_a]) fails_at_first) monday_9 None 0 =
   \<lparr>returned = Inr (SkipReason ''No swarms matched current time''),
    context_cursor = Some ''{}'',
    final = \<lparr>cursor = [], triggered = [], world = 2, run_calls = [(''swarm-a'', False)]\<rparr>\<rparr>"
  by code_simp

lemma example_retry_second:
  "swarm_schedule_sensor (example_env (Inr [swarm_a]) fails_at_first) monday_9 (Some ''{}'') 2 =
   \<lparr>returned = Inr ReturnNone,
    context_cursor = Some ''{\"2024-01-15-09-00:swarm-a\": true}'',
    final = \<lparr>cursor = [(''2024-01-15-09-00:swarm-a'', JBool True)], triggered = [''Alpha''],
             world = 4, run_calls = [(''swarm-a'', True)]\<rparr>\<rparr>"
  by code_simp

lemma example_load_both:
  "load_cursor (example_env listing fails)
       (Some ''{\"2024-01-15-09-00:swarm-a\": true, \"2024-01-15-09-00:swarm-b\": true}'')
     = Inr (JObject [(''2024-01-15-09-00:swarm-a'', JBool True),
                     (''2024-01-15-09-00:swarm-b'', JBool True)])"
  by (simp add: load_cursor_def example_env_def example_loads_def)

lemma example_get_swarms: "get_swarms (example_env listing fails) w = (listing, Suc w)"
  by (simp add: example_env_def)

text \<open>
  C1, as stated, fails when a trigger call fails. At Monday 09:00 with the one swarm A due,
  the first run calls the trigger for A, the call fails and the ledger stays empty; the
  second run in the same minute, with the same listing, calls the trigger for A again,
  and returns success instead of the skip.
\<close>

theorem dedup_retry_after_failed_trigger:
  "due monday_9 swarm_a \<and>
   run_calls (final (swarm_schedule_sensor (example_env (Inr [swarm_a]) fails_at_first)
       monday_9 None 0)) = [(''swarm-a'', False)] \<and>
   context_cursor (swarm_schedule_sensor (example_env (Inr [swarm_a]) fails_at_first)
       monday_9 None 0) = Some ''{}'' \<and>
   world (final (swarm_schedule_sensor (example_env (Inr [swarm_a]) fails_at_first)
       monday_9 None 0)) = 2 \<and>
   get_swarms (example_env (Inr [swarm_a]) fails_at_first) 0 = (Inr [swarm_a], 1) \<and>
   get_swarms (example_env (Inr [swarm_a]) fails_at_first) 2 = (Inr [swarm_a], 3) \<and>
   run_calls (final (swarm_schedule_sensor (example_env (Inr [swarm_a]) fails_at_first)
       monday_9 (Some ''{}'') 2)) = [(''swarm-a'', True)] \<and>
   returned (swarm_schedule_sensor (example_env (Inr [swarm_a]) fails_at_first)
       monday_9 (Some ''{}'') 2) = Inr ReturnNone"
proof -
  have "get_swarms (example_env (Inr [swarm_a]) fails_at_first) 0 = (Inr [swarm_a], 1)"
    and "get_swarms (example_env (Inr [swarm_a]) fails_at_first) 2 = (Inr [swarm_a], 3)"
    by (simp_all add: example_env_def)
  then show ?thesis
    by (simp add: example_due_a example_retry_first example_retry_second)
qed

text \<open>
  C1, amended. Let the cursor load as a ledger, the listing succeed with the same swarms
  in both runs, no cron expression make the matcher raise, every trigger call return, and
  the cursor written by the first run load as the ledger it was written from. Then the first
  run calls the trigger exactly once for each due swarm whose key is not yet in the pruned
  ledger, and for no other; after it the key of every due swarm is in the ledger; and the
  second run at the same minute makes no trigger call, returns the skip "No swarms matched
  current time", and leaves the cursor as the first run wrote it.
\<close>

theorem dedup_idempotence:
  assumes load: "load_cursor env c = Inr (JObject items)"
    and fetch: "get_swarms env w = (Inr swarms, w1)"
    and quiet: "\<forall>sw \<in> set swarms. \<not> raising now sw"
    and ok: "\<forall>sid w'. \<not> isl (fst (run_swarm env sid w'))"
    and r1: "r1 = swarm_schedule_sensor env now c w"
    and reload: "load_cursor env (context_cursor r1) = Inr (JObject (cursor (final r1)))"
    and refetch: "get_swarms env (world (final r1)) = (Inr swarms, w2)"
    and r2: "r2 = swarm_schedule_sensor env now (context_cursor r1) (world (final r1))"
  shows "distinct (map fst (run_calls (final r1))) \<and>
         set (run_calls (final r1)) = first_calls now (keys (prune now items)) swarms \<and>
         list_all (\<lambda>sw. \<not> due now sw \<or> dedup_key now (swarm_id sw) \<in> keys (cursor (final r1))) swarms \<and>
         run_calls (final r2) = [] \<and>
         returned r2 = Inr (SkipReason ''No swarms matched current time'') \<and>
         context_cursor r2 = context_cursor r1"
proof -
  let ?st0 = "\<lparr>cursor = prune now items, triggered = [], world = w1, run_calls = []\<rparr>"
  have "settled now ?st0" by (simp add: settled_def)
  from first_run [OF ok quiet this] obtain st where
    loop: "for_swarms env now swarms ?st0 = Inr st" and st: "settled now st"
    and marked: "\<forall>sw \<in> set swarms. due now sw \<longrightarrow> dedup_key now (swarm_id sw) \<in> keys (cursor st)"
    and calls: "set (run_calls st) = first_calls now (keys (prune now items)) swarms"
    by auto
  have fin1: "r1 = \<lparr>returned = Inr (if triggered st \<noteq> [] then ReturnNone
                      else SkipReason ''No swarms matched current time''),
      context_cursor = Some (json_dumps env (JObject (cursor st))),
      final = st\<rparr>"
    unfolding r1 by (rule sensor_completed [OF load fetch loop])
  from for_swarms_cursor [OF loop] obtain added where
    "cursor st = prune now items @ added" "list_all (fresh_entry now swarms) added"
    by auto
  then have same: "prune now (cursor st) = cursor st"
    by (simp add: prune_again)
  let ?st2 = "\<lparr>cursor = prune now (cursor st), triggered = [], world = w2, run_calls = []\<rparr>"
  have loop2: "for_swarms env now swarms ?st2 = Inr ?st2"
    using second_run [OF quiet, of ?st2 env] marked by (simp add: same)
  have reload': "load_cursor env (context_cursor r1) = Inr (JObject (cursor st))"
    using reload by (simp add: fin1)
  have refetch': "get_swarms env (world (final r1)) = (Inr swarms, w2)"
    using refetch .
  have fin2: "r2 = \<lparr>returned = Inr (if triggered ?st2 \<noteq> [] then ReturnNone
                      else SkipReason ''No swarms matched current time''),
      context_cursor = Some (json_dumps env (JObject (cursor ?st2))),
      final = ?st2\<rparr>"
    unfolding r2 by (rule sensor_completed [OF reload' refetch' loop2])
  have m: "list_all (\<lambda>sw. \<not> due now sw \<or> dedup_key now (swarm_id sw) \<in> keys (cursor st)) swarms"
    using marked by (auto simp: list_all_iff)
  have d: "distinct (map fst (run_calls st))"
    using st by (simp add: settled_def)
  have f1: "final r1 = st" "context_cursor r1 = Some (json_dumps env (JObject (cursor st)))"
    by (simp_all add: fin1)
  have f2: "final r2 = ?st2" "context_cursor r2 = Some (json_dumps env (JObject (cursor ?st2)))"
    "returned r2 = Inr (SkipReason ''No swarms matched current time'')"
    by (simp_all add: fin2)
  show ?thesis
    using m d calls by (simp add: f1 f2 same)
qed

theorem dedup_idempotence_witness:
  "run_calls (final (swarm_schedule_sensor (example_env (Inr [swarm_a, swarm_b]) never_fails)
       monday_9 (Some ''{\"2024-01-14-09-00:swarm-a\": true}'') 0))
     = [(''swarm-a'', True), (''swarm-b'', True)] \<and>
   first_calls monday_9 (keys (prune monday_9 [(''2024-01-14-09-00:swarm-a'', JBool True)]))
       [swarm_a, swarm_b]
     = {(''swarm-a'', True), (''swarm-b'', True)} \<and>
   run_calls (final (swarm_schedule_sensor (example_env (Inr [swarm_a, swarm_b]) never_fails)
       monday_9
       (Some ''{\"2024-01-15-09-00:swarm-a\": true, \"2024-01-15-09-00:swarm-b\": true}'') 3)) = [] \<and>
   returned (swarm_schedule_sensor (example_env (Inr [swarm_a, swarm_b]) never_fails)
       monday_9
       (Some ''{\"2024-01-15-09-00:swarm-a\": true, \"2024-01-15-09-00:swarm-b\": true}'') 3)
     = Inr (SkipReason ''No swarms matched current time'')"
proof -
  let ?env = "example_env (Inr [swarm_a, swarm_b]) never_fails"
  let ?r1 = "swarm_schedule_sensor ?env monday_9 (Some ''{\"2024-01-14-09-00:swarm-a\": true}'') 0"
  let ?r2 = "swarm_schedule_sensor ?env monday_9 (context_cursor ?r1) (world (final ?r1))"
  have fetch: "get_swarms ?env 0 = (Inr [swarm_a, swarm_b], 1)"
    by (simp add: example_env_def)
  have ok: "\<forall>sid w'. \<not> isl (fst (run_swarm ?env sid w'))"
    by (simp add: example_env_def never_fails_def)
  have reload: "load_cursor ?env (context_cursor ?r1) = Inr (JObject (cursor (final ?r1)))"
    by (simp add: example_run example_load_both)
  have refetch: "get_swarms ?env (world (final ?r1)) = (Inr [swarm_a, swarm_b], 4)"
    by (simp add: example_run example_get_swarms)
  from dedup_idempotence [OF example_load_yesterday fetch example_quiet ok refl reload refetch refl]
  have "set (run_calls (final ?r1))
          = first_calls monday_9 (keys (prune monday_9 [(''2024-01-14-09-00:swarm-a'', JBool True)]))
              [swarm_a, swarm_b] \<and>
        run_calls (final ?r2) = [] \<and>
        returned ?r2 = Inr (SkipReason ''No swarms matched current time'')"
    by simp
  then show ?thesis
    by (simp add: example_run)
qed

section \<open>The forms of a field\<close>

lemma split_on_nonempty: "split_on sep s \<noteq> []"
  by (induction s) (auto split: list.splits)

lemma split_on_no_sep: "sep \<notin> set s \<Longrightarrow> split_on sep s = [s]"
  by (induction s) auto

lemma split_on_append: "sep \<notin> set a \<Longrightarrow> split_on sep (a @ sep # b) = a # split_on sep b"
  by (induction a) auto

lemma split_on_has_sep: "sep \<in> set s \<Longrightarrow> 2 \<le> length (split_on sep s)"
proof (induction s)
  case Nil
  then show ?case by simp
next
  case (Cons c s)
  show ?case
  proof (cases "c = sep")
    case True
    then show ?thesis
      using split_on_nonempty [of sep s] by (cases "split_on sep s") auto
  next
    case False
    with Cons show ?thesis
      by (cases "split_on sep s") auto
  qed
qed

lemma parts_cover:
  "c \<in> set s \<Longrightarrow> c = sep \<or> (\<exists>p \<in> set (split_on sep s). c \<in> set p)"
proof (induction s)
  case Nil
  then show ?case by simp
next
  case (Cons d s)
  then show ?case
    using split_on_nonempty [of sep s]
    by (cases "split_on sep s") (auto split: if_splits)
qed

lemma split_on_join:
  "ts \<noteq> [] \<Longrightarrow> list_all (\<lambda>t. sep \<notin> set t) ts \<Longrightarrow> split_on sep (join_on sep ts) = ts"
proof (induction sep ts rule: join_on.induct)
  case (1 sep)
  then show ?case by simp
next
  case (2 sep t)
  then show ?case by (simp add: split_on_no_sep)
next
  case (3 sep t u ts)
  then show ?case by (simp add: split_on_append)
qed

lemma join_on_has_sep: "2 \<le> length ts \<Longrightarrow> sep \<in> set (join_on sep ts)"
  by (induction sep ts rule: join_on.induct) auto

lemma set_join_on: "set (join_on sep ts) \<subseteq> insert sep (\<Union> (set ` set ts))"
  by (induction sep ts rule: join_on.induct) auto

lemma dropWhile_cover: "c \<in> set s \<Longrightarrow> P c \<or> c \<in> set (dropWhile P s)"
  by (induction s) auto

lemma str_strip_cover: "c \<in> set s \<Longrightarrow> isspace c \<or> c \<in> set (str_strip s)"
  using dropWhile_cover [of c s isspace]
    dropWhile_cover [of c "rev (dropWhile isspace s)" isspace]
  by (auto simp: str_strip_def)

lemma unsigned_int_chars:
  assumes "unsigned_int body = Some n" and "c \<in> set body"
  shows "isdigit c \<or> c = CHR ''_''"
proof -
  from assms(1) have all: "list_all (\<lambda>g. g \<noteq> [] \<and> list_all isdigit g) (split_on (CHR ''_'') body)"
    by (simp add: unsigned_int_def Let_def split: if_splits)
  from parts_cover [OF assms(2), of "CHR ''_''"] all show ?thesis
    by (auto simp: list_all_iff)
qed

lemma py_int_chars:
  assumes "py_int s = Some n" and "c \<in> set s"
  shows "isspace c \<or> isdigit c \<or> c = CHR ''_'' \<or> c = CHR ''+'' \<or> c = CHR ''-''"
proof (cases "isspace c")
  case True
  then show ?thesis by simp
next
  case False
  with str_strip_cover [OF assms(2)] have mem: "c \<in> set (str_strip s)" by simp
  then obtain d r where dr: "str_strip s = d # r" by (cases "str_strip s") auto
  from assms(1) dr mem unsigned_int_chars [of r _ c] unsigned_int_chars [of "d # r" n c]
  show ?thesis
    by (auto simp: py_int_def split: if_splits)
qed

lemma py_int_no_slash: "py_int s = Some n \<Longrightarrow> CHR ''/'' \<notin> set s"
  using py_int_chars [of s n "CHR ''/''"] by (auto simp: isspace_def isdigit_def)

lemma py_int_no_comma: "py_int s = Some n \<Longrightarrow> CHR '','' \<notin> set s"
  using py_int_chars [of s n "CHR '',''"] by (auto simp: isspace_def isdigit_def)

lemma py_int_no_star: "py_int s = Some n \<Longrightarrow> CHR ''*'' \<notin> set s"
  using py_int_chars [of s n "CHR ''*''"] by (auto simp: isspace_def isdigit_def)

lemma field_step:
  assumes step: "py_int step = Some n" and base: "CHR ''/'' \<notin> set base"
  shows "matches_field (base @ ''/'' @ step) v =
           (if base = ''*'' then (if n = 0 then Inl ZeroDivisionError else Inr (v mod n = 0))
            else Inr False)"
proof -
  have "split_on (CHR ''/'') (base @ ''/'' @ step) = [base, step]"
    using split_on_append [OF base, of step] py_int_no_slash [OF step]
    by (simp add: split_on_no_sep)
  moreover have "base @ ''/'' @ step \<noteq> ''*''"
    by (cases base) auto
  ultimately show ?thesis
    by (simp add: matches_field_def step)
qed

lemma field_range:
  assumes a: "py_int a = Some lo" and b: "py_int b = Some hi"
    and da: "CHR ''-'' \<notin> set a" and db: "CHR ''-'' \<notin> set b"
  shows "matches_field (a @ ''-'' @ b) v = Inr (lo \<le> v \<and> v \<le> hi)"
proof -
  have "split_on (CHR ''-'') (a @ ''-'' @ b) = [a, b]"
    using split_on_append [OF da, of b] db by (simp add: split_on_no_sep)
  moreover have "a @ ''-'' @ b \<noteq> ''*''"
    by (cases a) auto
  moreover have "CHR ''/'' \<notin> set (a @ ''-'' @ b)"
    using py_int_no_slash [OF a] py_int_no_slash [OF b] by simp
  ultimately show ?thesis
    by (simp add: matches_field_def a b)
qed

lemma field_plain:
  assumes t: "py_int t = Some n" and d: "CHR ''-'' \<notin> set t"
  shows "matches_field t v = Inr (v = n)"
proof -
  have "t \<noteq> ''*''"
    using py_int_no_star [OF t] by auto
  then show ?thesis
    using py_int_no_slash [OF t] py_int_no_comma [OF t] d
    by (simp add: matches_field_def t)
qed

lemma those_map_chars:
  "those (map py_int ts) = Some ns \<Longrightarrow> t \<in> set ts \<Longrightarrow> \<exists>n. py_int t = Some n"
proof (induction ts arbitrary: ns)
  case Nil
  then show ?case by simp
next
  case (Cons u ts)
  then show ?case by (auto split: option.splits)
qed

lemma field_list:
  assumes ns: "those (map py_int ts) = Some ns" and len: "2 \<le> length ts"
    and d: "list_all (\<lambda>t. CHR ''-'' \<notin> set t) ts"
  shows "matches_field (join_on (CHR '','') ts) v = Inr (v \<in> set ns)"
proof -
  let ?f = "join_on (CHR '','') ts"
  have tok: "CHR ''/'' \<notin> set t \<and> CHR '','' \<notin> set t \<and> CHR ''-'' \<notin> set t"
    if "t \<in> set ts" for t
  proof -
    from those_map_chars [OF ns that] obtain n where "py_int t = Some n" by blast
    with py_int_no_slash [of t n] py_int_no_comma [of t n] d that show ?thesis
      by (simp add: list_all_iff)
  qed
  have chars: "CHR ''/'' \<notin> set ?f" "CHR ''-'' \<notin> set ?f"
    using set_join_on [of "CHR '',''" ts] tok by auto
  have comma: "CHR '','' \<in> set ?f"
    using join_on_has_sep [OF len] .
  then have "?f \<noteq> ''*''" by auto
  moreover have "split_on (CHR '','') ?f = ts"
    using len tok by (intro split_on_join) (auto simp: list_all_iff)
  ultimately show ?thesis
    using chars comma by (simp add: matches_field_def ns)
qed

lemma cron_and:
  assumes "str_split (str_strip e) = [f1, f2, f3, f4, f5]"
    and "matches_field f1 (minute dt) = Inr b1" and "matches_field f2 (hour dt) = Inr b2"
    and "matches_field f3 (day dt) = Inr b3" and "matches_field f4 (month dt) = Inr b4"
    and "matches_field f5 (cron_weekday dt) = Inr b5"
  shows "cron_matches e dt = Inr (b1 \<and> b2 \<and> b3 \<and> b4 \<and> b5)"
  using assms by (simp add: cron_matches_def py_and_Inr)

lemma split_quarter: "str_split (str_strip ''*/15 * * * *'') = [''*/15'', ''*'', ''*'', ''*'', ''*'']"
  by code_simp

lemma int_15: "py_int ''15'' = Some 15"
  by code_simp

lemma field_quarter: "matches_field ''*/15'' v = Inr (v mod 15 = 0)"
  using field_step [of "''15''" 15 "''*''" v] by (simp add: int_15)

lemma quarter_matches: "cron_matches ''*/15 * * * *'' dt = Inr (minute dt mod 15 = 0)"
  by (simp add: cron_matches_def split_quarter field_quarter field_star py_and_Inr)

lemma quarter_minutes:
  "0 \<le> (m::int) \<Longrightarrow> m \<le> 59 \<Longrightarrow> (m mod 15 = 0) = (m \<in> {0, 15, 30, 45})"
  by auto









lemma split_example:
  "str_split (str_strip ''*/15 9 10-20 1,3,5 *'') = [''*/15'', ''9'', ''10-20'', ''1,3,5'', ''*'']"
  by code_simp


lemma int_examples:
  "py_int ''15'' = Some 15" "py_int ''10'' = Some 10" "py_int ''20'' = Some 20"
  "py_int ''1'' = Some 1" "py_int ''3'' = Some 3" "py_int ''5'' = Some 5" "py_int ''9'' = Some 9"
  "py_int ''2'' = Some 2"
  by code_simp+

lemma fields_example:
  "matches_field ''*/15'' (minute monday_9) = Inr True"
  "matches_field ''9'' (hour monday_9) = Inr True"
  "matches_field ''10-20'' (day monday_9) = Inr True"
  "matches_field ''1,3,5'' (month monday_9) = Inr True"
  "matches_field ''*'' (cron_weekday monday_9) = Inr True"
  by code_simp+



text \<open>
  C5. A field \<open>*\<close> always matches. A field \<open>base/step\<close> whose step reads as the integer
  \<open>n\<close> matches iff the base is \<open>*\<close> and the value is a multiple of \<open>n\<close> (\<open>n\<close> not being
  zero under the base \<open>*\<close>). A field \<open>a-b\<close> of two unsigned integers matches iff the value
  lies between them, both included. A comma list of two or more unsigned integers matches
  iff the value is one of them. An unsigned integer matches iff the value equals it. An
  expression of five fields matches iff each field matches its component of the instant.
  So \<open>*/15 * * * *\<close> matches iff the minute is a multiple of 15: at 0, 15, 30 and 45.
\<close>

theorem cron_field_semantics:
  "matches_field ''*'' v = Inr True \<and>
   (py_int step = Some n \<and> CHR ''/'' \<notin> set base \<and> (base = ''*'' \<longrightarrow> n \<noteq> 0)
      \<longrightarrow> matches_field (base @ ''/'' @ step) v = Inr (base = ''*'' \<and> v mod n = 0)) \<and>
   (py_int a = Some lo \<and> py_int b = Some hi \<and> CHR ''-'' \<notin> set a \<and> CHR ''-'' \<notin> set b
      \<longrightarrow> matches_field (a @ ''-'' @ b) v = Inr (lo \<le> v \<and> v \<le> hi)) \<and>
   (those (map py_int ts) = Some ns \<and> 2 \<le> length ts \<and> list_all (\<lambda>t. CHR ''-'' \<notin> set t) ts
      \<longrightarrow> matches_field (join_on (CHR '','') ts) v = Inr (v \<in> set ns)) \<and>
   (py_int t = Some k \<and> CHR ''-'' \<notin> set t \<longrightarrow> matches_field t v = Inr (v = k)) \<and>
   (str_split (str_strip e) = [f1, f2, f3, f4, f5] \<and>
    matches_field f1 (minute dt) = Inr b1 \<and> matches_field f2 (hour dt) = Inr b2 \<and>
    matches_field f3 (day dt) = Inr b3 \<and> matches_field f4 (month dt) = Inr b4 \<and>
    matches_field f5 (cron_weekday dt) = Inr b5
      \<longrightarrow> cron_matches e dt = Inr (b1 \<and> b2 \<and> b3 \<and> b4 \<and> b5)) \<and>
   cron_matches ''*/15 * * * *'' dt = Inr (minute dt mod 15 = 0) \<and>
   (0 \<le> minute dt \<and> minute dt \<le> 59
      \<longrightarrow> (cron_matches ''*/15 * * * *'' dt = Inr True) = (minute dt \<in> {0, 15, 30, 45}))"
proof -
  have 1: "py_int step = Some n \<and> CHR ''/'' \<notin> set base \<and> (base = ''*'' \<longrightarrow> n \<noteq> 0)
      \<longrightarrow> matches_field (base @ ''/'' @ step) v = Inr (base = ''*'' \<and> v mod n = 0)"
    using field_step [of step n base v] by auto
  have 2: "py_int a = Some lo \<and> py_int b = Some hi \<and> CHR ''-'' \<notin> set a \<and> CHR ''-'' \<notin> set b
      \<longrightarrow> matches_field (a @ ''-'' @ b) v = Inr (lo \<le> v \<and> v \<le> hi)"
    using field_range [of a lo b hi v] by blast
  have 3: "those (map py_int ts) = Some ns \<and> 2 \<le> length ts \<and> list_all (\<lambda>t. CHR ''-'' \<notin> set t) ts
      \<longrightarrow> matches_field (join_on (CHR '','') ts) v = Inr (v \<in> set ns)"
    using field_list [of ts ns v] by blast
  have 4: "py_int t = Some k \<and> CHR ''-'' \<notin> set t \<longrightarrow> matches_field t v = Inr (v = k)"
    using field_plain [of t k v] by blast
  have 5: "str_split (str_strip e) = [f1, f2, f3, f4, f5] \<and>
    matches_field f1 (minute dt) = Inr b1 \<and> matches_field f2 (hour dt) = Inr b2 \<and>
    matches_field f3 (day dt) = Inr b3 \<and> matches_field f4 (month dt) = Inr b4 \<and>
    matches_field f5 (cron_weekday dt) = Inr b5
      \<longrightarrow> cron_matches e dt = Inr (b1 \<and> b2 \<and> b3 \<and> b4 \<and> b5)"
    using cron_and [of e f1 f2 f3 f4 f5 dt b1 b2 b3 b4 b5] by blast
  have 6: "0 \<le> minute dt \<and> minute dt \<le> 59
      \<longrightarrow> (cron_matches ''*/15 * * * *'' dt = Inr True) = (minute dt \<in> {0, 15, 30, 45})"
    using quarter_minutes [of "minute dt"] by (simp add: quarter_matches)
  from field_star [of v] 1 2 3 4 5 quarter_matches [of dt] 6 show ?thesis
    by blast
qed

theorem cron_field_semantics_witness:
  "matches_field ''*/15'' 30 = Inr True \<and>
   matches_field ''10-20'' 30 = Inr False \<and>
   matches_field ''1,3,5'' 30 = Inr False \<and>
   matches_field ''9'' 30 = Inr False \<and>
   cron_matches ''*/15 9 10-20 1,3,5 *'' monday_9 = Inr True \<and>
   cron_matches ''*/15 * * * *'' monday_9 = Inr True"
proof -
  note inst = cron_field_semantics [where v = 30 and step = "''15''" and n = 15 and base = "''*''"
      and a = "''10''" and lo = 10 and b = "''20''" and hi = 20
      and ts = "[''1'', ''3'', ''5'']" and ns = "[1, 3, 5]" and t = "''9''" and k = 9
      and e = "''*/15 9 10-20 1,3,5 *''" and ?f1.0 = "''*/15''" and ?f2.0 = "''9''"
      and ?f3.0 = "''10-20''" and ?f4.0 = "''1,3,5''" and ?f5.0 = "''*''" and dt = monday_9
      and ?b1.0 = True and ?b2.0 = True and ?b3.0 = True and ?b4.0 = True and ?b5.0 = True]
  have range: "0 \<le> minute monday_9 \<and> minute monday_9 \<le> 59" "minute monday_9 \<in> {0, 15, 30, 45}"
    by (simp_all add: monday_9_def)
  from inst have "matches_field ''*/15'' 30 = Inr True"
    by (simp add: int_examples)
  moreover from inst have "matches_field ''10-20'' 30 = Inr False"
    by (simp add: int_examples)
  moreover from inst have "matches_field ''1,3,5'' 30 = Inr False"
    by (simp add: int_examples)
  moreover from inst have "matches_field ''9'' 30 = Inr False"
    by (simp add: int_examples)
  moreover from inst have "cron_matches ''*/15 9 10-20 1,3,5 *'' monday_9 = Inr True"
    by (simp add: split_example fields_example)
  moreover from inst range have "cron_matches ''*/15 * * * *'' monday_9 = Inr True"
    by blast
  ultimately show ?thesis by blast
qed


section \<open>Malformed expressions\<close>




end
